theory Spec2Isabelle
  imports Complex_Main "HOL-Library.Sublist" "HOL-Library.Word"
    "HOL-Library.Code_Target_Numeral"
begin

section \<open>Strings of the host language\<close>

text \<open>
  The three string operations of the JavaScript standard library that the converter uses on
  file names and MIME types. \<open>lastIndexOf\<close> is called with the one-character search
  string \<open>'.'\<close>; it answers the index of the last occurrence, and \<open>-1\<close> when there is none.
  \<open>substring\<close> clamps both arguments into \<open>[0, length]\<close> and swaps them when the first is
  the larger one. \<open>startsWith\<close> is the prefix test.
\<close>

fun lastIndexOf :: "string \<Rightarrow> char \<Rightarrow> int" where
  "lastIndexOf [] c = - 1"
| "lastIndexOf (x # xs) c =
     (let r = lastIndexOf xs c
      in if 0 \<le> r then r + 1 else if x = c then 0 else - 1)"

definition substring :: "string \<Rightarrow> int \<Rightarrow> int \<Rightarrow> string" where
  "substring s a b =
     (let n = int (length s);
          a' = min (max a 0) n;
          b' = min (max b 0) n;
          lo = min a' b';
          hi = max a' b'
      in take (nat (hi - lo)) (drop (nat lo) s))"

definition startsWith :: "string \<Rightarrow> string \<Rightarrow> bool" where
  "startsWith s p = prefix p s"

section \<open>Output formats\<close>

text \<open>
  \<open>OutputFormat\<close> is a union of eight string literals in the source; the type is erased
  when the program runs, where a format is a string. \<open>OutputFormat_values\<close> lists the
  eight literals.

  \<open>formatToMime\<close> is an object literal: the table below holds its own properties. A
  property access \<open>obj[key]\<close> on such an object answers the own property when there is
  one, the member inherited from \<open>Object.prototype\<close> when the key names one, and
  \<open>undefined\<close> otherwise.
\<close>

datatype js_value = Undefined | JSString string | Inherited string

definition Object_prototype_properties :: "string list" where
  "Object_prototype_properties =
     [''constructor'', ''__defineGetter__'', ''__defineSetter__'', ''hasOwnProperty'',
      ''__lookupGetter__'', ''__lookupSetter__'', ''isPrototypeOf'', ''propertyIsEnumerable'',
      ''toString'', ''valueOf'', ''__proto__'', ''toLocaleString'']"

definition get_property :: "(string \<Rightarrow> string option) \<Rightarrow> string \<Rightarrow> js_value" where
  "get_property obj key =
     (case obj key of
        Some v \<Rightarrow> JSString v
      | None \<Rightarrow> if key \<in> set Object_prototype_properties then Inherited key else Undefined)"

type_synonym OutputFormat = string

definition OutputFormat_values :: "OutputFormat list" where
  "OutputFormat_values =
     [''png'', ''jpeg'', ''webp'', ''bmp'', ''gif'', ''tiff'', ''pdf'', ''ico'']"

definition formatToMime :: "string \<Rightarrow> string option" where
  "formatToMime =
     [''jpeg'' \<mapsto> ''image/jpeg'',
      ''jpg'' \<mapsto> ''image/jpeg'',
      ''png'' \<mapsto> ''image/png'',
      ''ico'' \<mapsto> ''image/x-icon'',
      ''webp'' \<mapsto> ''image/webp'',
      ''bmp'' \<mapsto> ''image/bmp'',
      ''gif'' \<mapsto> ''image/gif'',
      ''tiff'' \<mapsto> ''image/tiff'',
      ''pdf'' \<mapsto> ''application/pdf'']"

definition getFileExtension :: "OutputFormat \<Rightarrow> string" where
  "getFileExtension format = (if format = ''jpeg'' then ''jpg'' else format)"

text \<open>
  The two lines of \<open>handleConvert\<close> that derive the suggested file name:
  \<open>name.substring(0, name.lastIndexOf('.'))\<close>, then the template
  \<open>`${originalName}.${newExtension}`\<close>.
\<close>

definition originalName :: "string \<Rightarrow> string" where
  "originalName nm = substring nm 0 (lastIndexOf nm (CHR ''.''))"

definition resultFileName :: "string \<Rightarrow> OutputFormat \<Rightarrow> string" where
  "resultFileName nm finalFormat = originalName nm @ ''.'' @ getFileExtension finalFormat"

section \<open>Files and uploaded items\<close>

text \<open>
  The fields of the browser's \<open>File\<close> that the code reads, and the \<open>IFile\<close> record of
  the source (\<open>size\<close>, \<open>type\<close>, \<open>id\<close> and \<open>file\<close> carry a prime, the plain names
  being taken). An object URL is a handle handed out by \<open>URL.createObjectURL\<close>; the model
  numbers them.
\<close>

type_synonym ObjectURL = nat

record File =
  name :: string
  lastModified :: int
  size' :: nat
  type' :: string

record IFile =
  id' :: string
  file' :: File
  preview :: ObjectURL

text \<open>
  A template literal renders a number by \<open>Number.prototype.toString\<close>; for an integer
  that is its decimal digits, after a minus sign when it is negative.
\<close>

definition digit_char :: "nat \<Rightarrow> char" where
  "digit_char d = ''0123456789'' ! d"

fun decimal :: "nat \<Rightarrow> string \<Rightarrow> string" where
  "decimal n acc =
     (if n < 10 then digit_char n # acc
      else decimal (n div 10) (digit_char (n mod 10) # acc))"

declare decimal.simps [simp del]

definition toString :: "int \<Rightarrow> string" where
  "toString i = (if i < 0 then CHR ''-'' # decimal (nat (- i)) [] else decimal (nat i) [])"

text \<open>The template \<open>`${file.name}-${file.lastModified}-${file.size}`\<close>.\<close>

definition file_id :: "File \<Rightarrow> string" where
  "file_id f = name f @ ''-'' @ toString (lastModified f) @ ''-'' @ toString (int (size' f))"

section \<open>Rasters, the canvas and the encoders\<close>

text \<open>
  A pixel has four 8-bit channels. A decoded image and a canvas are a width, a height and a
  bitmap; only the positions inside the bounds mean something. Painting on a 2D context
  composites with the default operator, source-over.
\<close>

record rgba =
  red :: "8 word"
  green :: "8 word"
  blue :: "8 word"
  alpha :: "8 word"

record image =
  width :: nat
  height :: nat
  pixels :: "nat \<Rightarrow> nat \<Rightarrow> rgba"

record canvas =
  cwidth :: nat
  cheight :: nat
  bitmap :: "nat \<Rightarrow> nat \<Rightarrow> rgba"

definition white :: rgba where
  "white = \<lparr>red = 255, green = 255, blue = 255, alpha = 255\<rparr>"

definition transparent_black :: rgba where
  "transparent_black = \<lparr>red = 0, green = 0, blue = 0, alpha = 0\<rparr>"

definition blend_channel :: "nat \<Rightarrow> nat \<Rightarrow> nat \<Rightarrow> nat \<Rightarrow> nat \<Rightarrow> nat" where
  "blend_channel cs sa cd da oa =
     (if oa = 0 then 0 else (cs * sa * 255 + cd * da * (255 - sa)) div (oa * 255))"

definition source_over :: "rgba \<Rightarrow> rgba \<Rightarrow> rgba" where
  "source_over src dst =
     (let sa = unat (alpha src);
          da = unat (alpha dst);
          oa = sa + da * (255 - sa) div 255
      in \<lparr>red = of_nat (blend_channel (unat (red src)) sa (unat (red dst)) da oa),
          green = of_nat (blend_channel (unat (green src)) sa (unat (green dst)) da oa),
          blue = of_nat (blend_channel (unat (blue src)) sa (unat (blue dst)) da oa),
          alpha = of_nat oa\<rparr>)"

text \<open>
  What the converter needs from the browser: the decoder behind \<open>img.src\<close> (\<open>None\<close> is
  \<open>onerror\<close>), whether a canvas of a given size yields a 2D context, the resampler behind
  \<open>drawImage\<close> (the source image scaled to a width and height, read at a position), and
  whether \<open>toDataURL\<close> throws for a canvas, MIME type and quality.
\<close>

datatype DOMException = SecurityError | OtherException

record browser =
  loadImage :: "ObjectURL \<Rightarrow> image option"
  getContext2d :: "nat \<Rightarrow> nat \<Rightarrow> bool"
  resample :: "image \<Rightarrow> nat \<Rightarrow> nat \<Rightarrow> nat \<Rightarrow> nat \<Rightarrow> rgba"
  toDataURL_throws :: "canvas \<Rightarrow> js_value \<Rightarrow> real option \<Rightarrow> DOMException option"

definition createCanvas :: "nat \<Rightarrow> nat \<Rightarrow> canvas" where
  "createCanvas w h = \<lparr>cwidth = w, cheight = h, bitmap = (\<lambda>x y. transparent_black)\<rparr>"

definition fillRect :: "canvas \<Rightarrow> rgba \<Rightarrow> nat \<Rightarrow> nat \<Rightarrow> nat \<Rightarrow> nat \<Rightarrow> canvas" where
  "fillRect cv fillStyle x0 y0 w h =
     cv\<lparr>bitmap := (\<lambda>x y.
            if x0 \<le> x \<and> x < x0 + w \<and> y0 \<le> y \<and> y < y0 + h
            then source_over fillStyle (bitmap cv x y)
            else bitmap cv x y)\<rparr>"

definition drawImage ::
  "browser \<Rightarrow> canvas \<Rightarrow> image \<Rightarrow> nat \<Rightarrow> nat \<Rightarrow> nat \<Rightarrow> nat \<Rightarrow> canvas" where
  "drawImage br cv img dx dy dw dh =
     cv\<lparr>bitmap := (\<lambda>x y.
            if dx \<le> x \<and> x < dx + dw \<and> dy \<le> y \<and> y < dy + dh
            then source_over (resample br img dw dh (x - dx) (y - dy)) (bitmap cv x y)
            else bitmap cv x y)\<rparr>"

text \<open>
  The string a conversion delivers is kept as what produced it: \<open>CanvasData cv t q\<close> is
  the value of \<open>cv.toDataURL(t, q)\<close> (\<open>None\<close> for no quality), and \<open>PdfData\<close> is
  the \<open>datauristring\<close> output of a one-page jsPDF document with the given orientation and
  page format, holding one image added at a rectangle.
\<close>

datatype orientation = Landscape | Portrait

datatype payload =
    CanvasData canvas js_value "real option"
  | PdfData orientation "nat \<times> nat" payload string "nat \<times> nat \<times> nat \<times> nat"

fun raster :: "payload \<Rightarrow> canvas" where
  "raster (CanvasData cv t q) = cv"
| "raster (PdfData ori fmt img kind box) = raster img"

fun encoding :: "payload \<Rightarrow> js_value" where
  "encoding (CanvasData cv t q) = t"
| "encoding (PdfData ori fmt img kind box) = encoding img"

section \<open>convertImage\<close>

text \<open>
  The promise \<open>convertImage\<close> returns is resolved, rejected, or never settled: in the
  \<open>pdf\<close> branch \<open>toDataURL\<close> is called outside the \<open>try\<close>, inside the \<open>onload\<close>
  callback, so an exception there reaches neither \<open>resolve\<close> nor \<open>reject\<close>. The two
  messages built from \<open>format.toUpperCase()\<close> are kept as the error with its format.
\<close>

datatype conv_error =
    CouldNotGetContext
  | SecurityRestrictions OutputFormat
  | MayNotSupport OutputFormat
  | CouldNotLoadImage

datatype 'a settled = Resolved 'a | Rejected conv_error | Unsettled

fun is_unsettled :: "'a settled \<Rightarrow> bool" where
  "is_unsettled Unsettled = True"
| "is_unsettled r = False"

definition convertImage :: "browser \<Rightarrow> ObjectURL \<Rightarrow> OutputFormat \<Rightarrow> payload settled" where
  "convertImage br dataUrl format =
     (case loadImage br dataUrl of
        None \<Rightarrow> Rejected CouldNotLoadImage
      | Some img \<Rightarrow>
          let w = (if format = ''ico'' then 32 else width img);
              h = (if format = ''ico'' then 32 else height img);
              cv = createCanvas w h
          in if \<not> getContext2d br w h then Rejected CouldNotGetContext
             else
               let cv1 = fillRect cv white 0 0 w h
               in if format = ''pdf'' then
                    let ori = (if w > h then Landscape else Portrait);
                        cv2 = drawImage br cv1 img 0 0 w h
                    in (case toDataURL_throws br cv2 (JSString ''image/png'') None of
                          Some e \<Rightarrow> Unsettled
                        | None \<Rightarrow>
                            Resolved (PdfData ori (w, h)
                              (CanvasData cv2 (JSString ''image/png'') None) ''PNG'' (0, 0, w, h)))
                  else
                    let cv2 = drawImage br cv1 img 0 0 w h;
                        mimeType = (if format = ''ico'' then JSString ''image/png''
                                    else get_property formatToMime format);
                        quality = (if format = ''jpeg'' then Some 0.9 else None)
                    in (case toDataURL_throws br cv2 mimeType quality of
                          None \<Rightarrow> Resolved (CanvasData cv2 mimeType quality)
                        | Some SecurityError \<Rightarrow> Rejected (SecurityRestrictions format)
                        | Some OtherException \<Rightarrow> Rejected (MayNotSupport format)))"

section \<open>The card of one item\<close>

datatype ConversionStatus = idle | converting | success | error

record conversion_result =
  url :: payload
  fileName :: string

record card =
  outputFormat :: OutputFormat
  status :: ConversionStatus
  result :: "conversion_result option"

datatype toast =
    InvalidFileType
  | ConversionFailed conv_error
  | BatchConversionComplete nat OutputFormat
  | BatchConversionFailed

definition initial_card :: card where
  "initial_card = \<lparr>outputFormat = ''png'', status = idle, result = None\<rparr>"

text \<open>
  \<open>handleConvert\<close> in its two halves, before and after the \<open>await\<close>. The optional
  argument is \<open>None\<close> when omitted; \<open>format || outputFormat\<close> and \<open>if (format)\<close> take
  the empty string for absent too. The second half is given by what it does to the card, the
  toasts it shows, and the error it throws again, if any.
\<close>

definition truthy :: "OutputFormat option \<Rightarrow> bool" where
  "truthy format = (case format of None \<Rightarrow> False | Some f \<Rightarrow> f \<noteq> [])"

definition finalFormat :: "OutputFormat option \<Rightarrow> card \<Rightarrow> OutputFormat" where
  "finalFormat format c = (if truthy format then the format else outputFormat c)"

definition handleConvert_request :: "OutputFormat option \<Rightarrow> card \<Rightarrow> card" where
  "handleConvert_request format c =
     (let c1 = (if truthy format then c\<lparr>outputFormat := the format\<rparr> else c)
      in c1\<lparr>result := None, status := converting\<rparr>)"

definition handleConvert_settle ::
  "IFile \<Rightarrow> OutputFormat \<Rightarrow> payload settled \<Rightarrow> card \<Rightarrow> card" where
  "handleConvert_settle fileData ff outcome c =
     (case outcome of
        Resolved convertedUrl \<Rightarrow>
          c\<lparr>result := Some \<lparr>url = convertedUrl,
                             fileName = resultFileName (name (file' fileData)) ff\<rparr>,
            status := success\<rparr>
      | Rejected e \<Rightarrow> c\<lparr>status := error\<rparr>
      | Unsettled \<Rightarrow> c)"

definition handleConvert_toasts :: "payload settled \<Rightarrow> toast list" where
  "handleConvert_toasts outcome =
     (case outcome of Rejected e \<Rightarrow> [ConversionFailed e] | Resolved u \<Rightarrow> [] | Unsettled \<Rightarrow> [])"

definition handleConvert_throws :: "payload settled \<Rightarrow> conv_error option" where
  "handleConvert_throws outcome =
     (case outcome of Rejected e \<Rightarrow> Some e | Resolved u \<Rightarrow> None | Unsettled \<Rightarrow> None)"

definition handleConvert ::
  "browser \<Rightarrow> IFile \<Rightarrow> OutputFormat option \<Rightarrow> card \<Rightarrow> card \<times> toast list \<times> conv_error option" where
  "handleConvert br fileData format c =
     (let ff = finalFormat format c;
          c1 = handleConvert_request format c;
          outcome = convertImage br (preview fileData) ff
      in (handleConvert_settle fileData ff outcome c1,
          handleConvert_toasts outcome,
          handleConvert_throws outcome))"










section \<open>The batch controller\<close>

text \<open>
  The component state of \<open>ImageConverterClient\<close>: the \<open>files\<close> list, the batch format
  and flag, the toasts shown so far, and the browser's registry of object URLs: the handles
  that are live, the next one to hand out, and the log of the calls of
  \<open>URL.revokeObjectURL\<close>.

  Every rendered item has an \<open>ImageFileCard\<close> of its own, with its own state and its item
  as \<open>fileData\<close>. A card is addressed here by the preview of its item, an object URL that
  no two items share; \<open>cards\<close> holds the state of each. \<open>fileCardRefs\<close> maps an id to the
  card whose ref callback ran last under that id, given by the \<open>fileData\<close> of that card:
  the callbacks run in the order of the list and \<open>Map.set\<close> overwrites, so of two items
  with one id the later one's card is the one registered.
\<close>

record client =
  files :: "IFile list"
  cards :: "ObjectURL \<Rightarrow> card"
  fileCardRefs :: "string \<Rightarrow> IFile option"
  batchOutputFormat :: OutputFormat
  isBatchConverting :: bool
  toasts :: "toast list"
  objectURLs :: "ObjectURL list"
  nextObjectURL :: nat
  revoked :: "ObjectURL list"

definition initial_client :: client where
  "initial_client =
     \<lparr>files = [], cards = (\<lambda>u. initial_card), fileCardRefs = (\<lambda>k. None),
      batchOutputFormat = ''png'', isBatchConverting = False, toasts = [], objectURLs = [],
      nextObjectURL = 0, revoked = []\<rparr>"

definition revokeObjectURL :: "ObjectURL \<Rightarrow> client \<Rightarrow> client" where
  "revokeObjectURL u s =
     s\<lparr>objectURLs := filter (\<lambda>v. v \<noteq> u) (objectURLs s), revoked := revoked s @ [u]\<rparr>"

text \<open>
  The \<open>map\<close> of \<open>handleFiles\<close>: one \<open>IFile\<close> per file, each with an object URL of its
  own, created in order from the handle \<open>n\<close> on.
\<close>

fun new_items :: "File list \<Rightarrow> nat \<Rightarrow> IFile list" where
  "new_items [] n = []"
| "new_items (f # fs) n = \<lparr>id' = file_id f, file' = f, preview = n\<rparr> # new_items fs (Suc n)"

text \<open>
  Rendering the list \<open>files.map(f => <ImageFileCard key={f.id} ref={...} fileData={f}/>)\<close>
  mounts a card in its initial state for every new item, in order, and each ref callback runs
  \<open>fileCardRefs.current.set(f.id, ref)\<close>.
\<close>

fun mount_cards :: "IFile list \<Rightarrow> client \<Rightarrow> client" where
  "mount_cards [] s = s"
| "mount_cards (f # fs) s =
     mount_cards fs
       (s\<lparr>cards := (cards s)(preview f := initial_card),
          fileCardRefs := (fileCardRefs s)(id' f \<mapsto> f)\<rparr>)"

definition handleFiles :: "File list option \<Rightarrow> client \<Rightarrow> client" where
  "handleFiles incomingFiles s =
     (case incomingFiles of
        None \<Rightarrow> s
      | Some incoming \<Rightarrow>
          let images = filter (\<lambda>f. startsWith (type' f) ''image/'') incoming;
              newFiles = new_items images (nextObjectURL s);
              s1 = s\<lparr>objectURLs := objectURLs s @ map preview newFiles,
                     nextObjectURL := nextObjectURL s + length images\<rparr>
          in if length newFiles = 0 then s1\<lparr>toasts := toasts s1 @ [InvalidFileType]\<rparr>
             else
               let existingIds = set (map id' (files s));
                   filteredNewFiles = filter (\<lambda>f. id' f \<notin> existingIds) newFiles
               in mount_cards filteredNewFiles (s1\<lparr>files := files s @ filteredNewFiles\<rparr>))"

definition removeFile :: "string \<Rightarrow> client \<Rightarrow> client" where
  "removeFile i s =
     (let fileToRemove = find (\<lambda>f. id' f = i) (files s);
          s1 = (case fileToRemove of None \<Rightarrow> s | Some f \<Rightarrow> revokeObjectURL (preview f) s)
      in s1\<lparr>fileCardRefs := (fileCardRefs s1)(i := None),
             files := filter (\<lambda>f. id' f \<noteq> i) (files s)\<rparr>)"

definition removeAll' :: "client \<Rightarrow> client" where
  "removeAll' s =
     (fold (\<lambda>f. revokeObjectURL (preview f)) (files s) s)
       \<lparr>files := [], fileCardRefs := (\<lambda>k. None)\<rparr>"

text \<open>
  Every item of the list has a card registered under its id, the card of an item of the list
  with that id.
\<close>

definition registered :: "client \<Rightarrow> bool" where
  "registered s =
     (\<forall>f \<in> set (files s). \<exists>fd \<in> set (files s).
         fileCardRefs s (id' f) = Some fd \<and> id' fd = id' f)"

section \<open>handleConvertAll\<close>

text \<open>
  A call of \<open>handleConvertAll\<close> in flight: the client, the files and the format the call
  closed over, one promise per file in the order of \<open>files.map\<close>, and whether the call
  still waits at \<open>await Promise.all\<close>. A pending promise is a call of \<open>handleConvert\<close>
  in flight; it remembers the \<open>fileData\<close> of the card it was made on and its final format.
\<close>

datatype promise = Pending IFile OutputFormat | Fulfilled | RejectedWith conv_error

record batch_call =
  client_state :: client
  batch_files :: "IFile list"
  batch_format :: OutputFormat
  conversionPromises :: "promise list"
  awaiting :: bool

fun is_rejected :: "promise \<Rightarrow> bool" where
  "is_rejected (RejectedWith e) = True"
| "is_rejected p = False"


text \<open>
  The synchronous part of \<open>files.map(file => ...)\<close>: for a file under whose id a card is
  registered, \<open>handleConvert\<close> of that card runs up to its \<open>await\<close>; for any other,
  \<open>Promise.resolve()\<close>.
\<close>

fun start_conversions ::
  "OutputFormat \<Rightarrow> (string \<Rightarrow> IFile option) \<Rightarrow> IFile list \<Rightarrow> (ObjectURL \<Rightarrow> card)
     \<Rightarrow> (ObjectURL \<Rightarrow> card) \<times> promise list" where
  "start_conversions fmt refs [] cs = (cs, [])"
| "start_conversions fmt refs (f # fs) cs =
     (case refs (id' f) of
        None \<Rightarrow>
          (let (cs', ps) = start_conversions fmt refs fs cs in (cs', Fulfilled # ps))
      | Some fd \<Rightarrow>
          (let (cs', ps) =
                 start_conversions fmt refs fs
                   (cs(preview fd := handleConvert_request (Some fmt) (cs (preview fd))))
           in (cs', Pending fd (finalFormat (Some fmt) (cs (preview fd))) # ps)))"

text \<open>
  \<open>Promise.all\<close> and the \<open>try\<close>/\<open>catch\<close>/\<open>finally\<close> around it: the waiting call goes on
  with the \<open>catch\<close> branch once a promise is rejected, with the \<open>try\<close> branch once all are
  fulfilled, and with \<open>finally\<close> after either.
\<close>

definition promise_all :: "batch_call \<Rightarrow> batch_call" where
  "promise_all b =
     (if \<not> awaiting b then b
      else if \<exists>p \<in> set (conversionPromises b). is_rejected p then
        b\<lparr>client_state := (client_state b)
              \<lparr>toasts := toasts (client_state b) @ [BatchConversionFailed],
               isBatchConverting := False\<rparr>,
          awaiting := False\<rparr>
      else if \<forall>p \<in> set (conversionPromises b). p = Fulfilled then
        b\<lparr>client_state := (client_state b)
              \<lparr>toasts := toasts (client_state b)
                 @ [BatchConversionComplete (length (batch_files b)) (batch_format b)],
               isBatchConverting := False\<rparr>,
          awaiting := False\<rparr>
      else b)"

definition handleConvertAll :: "client \<Rightarrow> batch_call" where
  "handleConvertAll s =
     (if length (files s) = 0 then
        \<lparr>client_state = s, batch_files = files s, batch_format = batchOutputFormat s,
         conversionPromises = [], awaiting = False\<rparr>
      else
        let (cs, ps) =
              start_conversions (batchOutputFormat s) (fileCardRefs s) (files s) (cards s)
        in promise_all
             \<lparr>client_state = s\<lparr>isBatchConverting := True, cards := cs\<rparr>,
              batch_files = files s, batch_format = batchOutputFormat s,
              conversionPromises = ps, awaiting = True\<rparr>)"




section \<open>Example inputs\<close>

text \<open>
  An 800 by 600 image whose left half is fully transparent, a browser that decodes every
  object URL but the one numbered 2 to that image, always provides a context, scales by
  nearest neighbour and encodes without throwing, and a file.
\<close>

definition example_image :: image where
  "example_image =
     \<lparr>width = 800, height = 600,
      pixels = (\<lambda>x y. if x < 400 then transparent_black
                       else \<lparr>red = 10, green = 20, blue = 30, alpha = 255\<rparr>)\<rparr>"

definition example_browser :: browser where
  "example_browser =
     \<lparr>loadImage = (\<lambda>u. if u = 2 then None else Some example_image),
      getContext2d = (\<lambda>w h. True),
      resample = (\<lambda>img w h x y. pixels img (x * width img div w) (y * height img div h)),
      toDataURL_throws = (\<lambda>cv t q. None)\<rparr>"


definition example_file :: File where
  "example_file =
     \<lparr>name = ''photo.png'', lastModified = 1700000000000, size' = 2048,
      type' = ''image/png''\<rparr>"

definition example_item :: IFile where
  "example_item = \<lparr>id' = file_id example_file, file' = example_file, preview = 0\<rparr>"

fun is_resolved :: "'a settled \<Rightarrow> bool" where
  "is_resolved (Resolved x) = True"
| "is_resolved r = False"

fun resolved :: "'a settled \<Rightarrow> 'a option" where
  "resolved (Resolved x) = Some x"
| "resolved r = None"

definition example_pdf_file :: File where
  "example_pdf_file =
     \<lparr>name = ''notes.pdf'', lastModified = 1700000000001, size' = 512,
      type' = ''application/pdf''\<rparr>"




section \<open>Reading a batch in flight\<close>




definition card_statuses :: "client \<Rightarrow> ConversionStatus list" where
  "card_statuses s = map (\<lambda>f. status (cards s (preview f))) (files s)"









section \<open>File names\<close>

lemma lastIndexOf_absent: "c \<notin> set s \<Longrightarrow> lastIndexOf s c = - 1"
  by (induction s) (auto simp: Let_def)

lemma lastIndexOf_ge: "- 1 \<le> lastIndexOf s c"
  by (induction s) (auto simp: Let_def)

lemma lastIndexOf_last: "c \<notin> set ext \<Longrightarrow> lastIndexOf (base @ c # ext) c = int (length base)"
  by (induction base) (auto simp: Let_def lastIndexOf_absent)

lemma originalName_ext:
  "CHR ''.'' \<notin> set ext \<Longrightarrow> originalName (base @ CHR ''.'' # ext) = base"
  by (simp add: originalName_def substring_def lastIndexOf_last Let_def)

lemma originalName_no_dot: "CHR ''.'' \<notin> set nm \<Longrightarrow> originalName nm = []"
  by (simp add: originalName_def substring_def lastIndexOf_absent Let_def)

lemma resultFileName_ext:
  "CHR ''.'' \<notin> set ext \<Longrightarrow>
   resultFileName (base @ ''.'' @ ext) ff = base @ ''.'' @ (if ff = ''jpeg'' then ''jpg'' else ff)"
  using originalName_ext [of ext base]
  by (simp add: resultFileName_def getFileExtension_def)

lemma is_unsettled_iff [simp]: "is_unsettled r = (r = Unsettled)"
  by (cases r) simp_all

lemma finalFormat_Some: "f \<noteq> [] \<Longrightarrow> finalFormat (Some f) c = f"
  by (simp add: finalFormat_def truthy_def)

lemma example_loads: "u \<noteq> 2 \<Longrightarrow> loadImage example_browser u = Some example_image"
  by (simp add: example_browser_def)

lemma example_resolves:
  "u \<noteq> 2 \<Longrightarrow> format \<noteq> ''pdf'' \<Longrightarrow> is_resolved (convertImage example_browser u format)"
  by (simp add: convertImage_def example_browser_def Let_def)

lemma is_resolvedE: "is_resolved r \<Longrightarrow> \<exists>x. r = Resolved x"
  by (cases r) simp_all

text \<open>
  Claim C5. When a conversion succeeds for a file whose name has an extension (the name is
  a base, a dot, and an extension without a dot), the card's result carries the file name
  made of the base, a dot, and \<open>jpg\<close> for the target \<open>jpeg\<close> or the target format itself
  for any other target; \<open>photo.png\<close> converted to \<open>jpeg\<close> is named \<open>photo.jpg\<close>.
\<close>

theorem handleConvert_fileName:
  assumes "convertImage br (preview fileData) (finalFormat format c) = Resolved u"
    and "name (file' fileData) = base @ ''.'' @ ext"
    and "CHR ''.'' \<notin> set ext"
  shows "result (fst (handleConvert br fileData format c)) =
           Some \<lparr>url = u,
                 fileName = base @ ''.'' @
                   (if finalFormat format c = ''jpeg'' then ''jpg'' else finalFormat format c)\<rparr>
         \<and> status (fst (handleConvert br fileData format c)) = success"
  using assms resultFileName_ext [of ext base "finalFormat format c"]
  by (simp add: handleConvert_def handleConvert_settle_def Let_def)

theorem handleConvert_fileName_witness:
  "fileName (the (result (fst (handleConvert example_browser example_item (Some ''jpeg'')
      initial_card)))) = ''photo.jpg''
   \<and> fileName (the (result (fst (handleConvert example_browser example_item (Some ''webp'')
      initial_card)))) = ''photo.webp''"
proof -
  have j: "finalFormat (Some ''jpeg'') initial_card = ''jpeg''"
    and w: "finalFormat (Some ''webp'') initial_card = ''webp''"
    by (simp_all add: finalFormat_Some)
  obtain u where h1: "convertImage example_browser (preview example_item)
      (finalFormat (Some ''jpeg'') initial_card) = Resolved u"
    using is_resolvedE [OF example_resolves [of 0 "''jpeg''"]]
    by (auto simp: j example_item_def)
  obtain v where h1': "convertImage example_browser (preview example_item)
      (finalFormat (Some ''webp'') initial_card) = Resolved v"
    using is_resolvedE [OF example_resolves [of 0 "''webp''"]]
    by (auto simp: w example_item_def)
  have h2: "name (file' example_item) = ''photo'' @ ''.'' @ ''png''"
    by (simp add: example_item_def example_file_def)
  have h3: "CHR ''.'' \<notin> set ''png''"
    by simp
  from handleConvert_fileName [OF h1 h2 h3] handleConvert_fileName [OF h1' h2 h3]
  show ?thesis
    by (simp add: j w)
qed

text \<open>
  Claim C10. When a conversion succeeds for a file whose name has no dot, \<open>lastIndexOf\<close>
  answers \<open>-1\<close>, \<open>substring(0, -1)\<close> is the empty string, and the suggested file name is
  a dot followed by the extension of the target: \<open>photo\<close> converted to \<open>png\<close> is named
  \<open>.png\<close>.
\<close>

theorem handleConvert_fileName_no_dot:
  assumes "convertImage br (preview fileData) (finalFormat format c) = Resolved u"
    and "CHR ''.'' \<notin> set (name (file' fileData))"
  shows "lastIndexOf (name (file' fileData)) (CHR ''.'') = - 1
         \<and> originalName (name (file' fileData)) = []
         \<and> result (fst (handleConvert br fileData format c)) =
             Some \<lparr>url = u, fileName = ''.'' @ getFileExtension (finalFormat format c)\<rparr>"
  using assms
  by (simp add: handleConvert_def handleConvert_settle_def Let_def resultFileName_def
      originalName_no_dot lastIndexOf_absent)

theorem handleConvert_fileName_no_dot_witness:
  "fileName (the (result (fst (handleConvert example_browser
      (example_item\<lparr>file' := example_file\<lparr>name := ''photo''\<rparr>\<rparr>) (Some ''png'')
      initial_card)))) = ''.png''"
proof -
  let ?fd = "example_item\<lparr>file' := example_file\<lparr>name := ''photo''\<rparr>\<rparr>"
  have ff: "finalFormat (Some ''png'') initial_card = ''png''"
    by (simp add: finalFormat_Some)
  obtain u where h1: "convertImage example_browser (preview ?fd)
      (finalFormat (Some ''png'') initial_card) = Resolved u"
    using is_resolvedE [OF example_resolves [of 0 "''png''"]]
    by (auto simp: ff example_item_def)
  have h2: "CHR ''.'' \<notin> set (name (file' ?fd))"
    by simp
  from handleConvert_fileName_no_dot [OF h1 h2] show ?thesis
    by (simp add: ff getFileExtension_def)
qed

section \<open>The raster a conversion encodes\<close>

lemma unat8_le: "unat (w :: 8 word) \<le> 255"
  using unsigned_less [of w, where ?'a = nat] by simp

lemma source_over_opaque_alpha:
  "alpha dst = 255 \<Longrightarrow> alpha (source_over src dst) = 255"
  using unat8_le [of "alpha src"]
  by (simp add: source_over_def Let_def)

lemma source_over_transparent:
  "alpha src = 0 \<Longrightarrow> alpha dst = 255 \<Longrightarrow> source_over src dst = dst"
  by (simp add: source_over_def Let_def blend_channel_def)

lemma source_over_white_fill: "source_over white transparent_black = white"
  by (simp add: source_over_def white_def transparent_black_def Let_def blend_channel_def)

lemma flattened_pixel:
  "x < w \<Longrightarrow> y < h \<Longrightarrow>
   bitmap (drawImage br (fillRect (createCanvas w h) white 0 0 w h) img 0 0 w h) x y
     = source_over (resample br img w h x y) white"
  by (simp add: drawImage_def fillRect_def createCanvas_def source_over_white_fill)

lemma flattened_size:
  "cwidth (drawImage br (fillRect (createCanvas w h) white 0 0 w h) img 0 0 w h) = w"
  "cheight (drawImage br (fillRect (createCanvas w h) white 0 0 w h) img 0 0 w h) = h"
  by (simp_all add: drawImage_def fillRect_def createCanvas_def)

lemma convertImage_raster:
  assumes "convertImage br dataUrl format = Resolved p"
    and "loadImage br dataUrl = Some img"
  shows "raster p =
           drawImage br
             (fillRect (createCanvas (if format = ''ico'' then 32 else width img)
                                     (if format = ''ico'' then 32 else height img))
                white 0 0 (if format = ''ico'' then 32 else width img)
                          (if format = ''ico'' then 32 else height img))
             img 0 0 (if format = ''ico'' then 32 else width img)
                     (if format = ''ico'' then 32 else height img)"
  using assms
  by (auto simp: convertImage_def Let_def split: if_splits option.splits DOMException.splits)

lemma convertImage_encoding_ico:
  assumes "convertImage br dataUrl ''ico'' = Resolved p"
  shows "p = CanvasData (raster p) (JSString ''image/png'') None"
  using assms
  by (auto simp: convertImage_def Let_def split: if_splits option.splits DOMException.splits)

lemma example_raster_size:
  assumes "convertImage example_browser 0 ''png'' = Resolved p"
  shows "cwidth (raster p) = 800" and "cheight (raster p) = 600"
proof -
  have l: "loadImage example_browser 0 = Some example_image"
    by (simp add: example_loads)
  have r: "raster p = drawImage example_browser (fillRect (createCanvas 800 600) white 0 0
             800 600) example_image 0 0 800 600"
    using convertImage_raster [OF assms l] by (simp add: example_image_def)
  show "cwidth (raster p) = 800" and "cheight (raster p) = 600"
    by (simp_all only: r flattened_size)
qed

text \<open>
  Claim C4. For the target \<open>ico\<close> the raster that is encoded is 32 by 32, it is the source
  image drawn scaled to 32 by 32 (on the white fill), and the payload is that canvas encoded
  with the MIME type \<open>image/png\<close>; for every other target the encoded raster has the
  width and the height of the source image.
\<close>

theorem convertImage_dimensions:
  assumes "convertImage br dataUrl format = Resolved p"
    and "loadImage br dataUrl = Some img"
  shows "if format = ''ico''
         then cwidth (raster p) = 32 \<and> cheight (raster p) = 32
              \<and> p = CanvasData (raster p) (JSString ''image/png'') None
              \<and> raster p = drawImage br (fillRect (createCanvas 32 32) white 0 0 32 32) img 0 0 32 32
         else cwidth (raster p) = width img \<and> cheight (raster p) = height img"
proof (cases "format = ''ico''")
  case True
  have r: "raster p = drawImage br (fillRect (createCanvas 32 32) white 0 0 32 32) img 0 0 32 32"
    using convertImage_raster [OF assms] True by simp
  have e: "p = CanvasData (raster p) (JSString ''image/png'') None"
    using convertImage_encoding_ico [of br dataUrl p] assms(1) True by simp
  have "cwidth (raster p) = 32" and "cheight (raster p) = 32"
    by (simp_all only: r flattened_size)
  with r e True show ?thesis by simp
next
  case False
  have r: "raster p = drawImage br (fillRect (createCanvas (width img) (height img)) white 0 0
             (width img) (height img)) img 0 0 (width img) (height img)"
    using convertImage_raster [OF assms] False by simp
  have "cwidth (raster p) = width img" and "cheight (raster p) = height img"
    by (simp_all only: r flattened_size)
  with False show ?thesis by simp
qed

theorem convertImage_dimensions_witness:
  "map_option (\<lambda>p. (cwidth (raster p), cheight (raster p), encoding p))
     (resolved (convertImage example_browser 0 ''ico'')) = Some (32, 32, JSString ''image/png'')
   \<and> map_option (\<lambda>p. (cwidth (raster p), cheight (raster p)))
     (resolved (convertImage example_browser 0 ''pdf'')) = Some (800, 600)"
proof -
  obtain p where h1: "convertImage example_browser 0 ''ico'' = Resolved p"
    using is_resolvedE [OF example_resolves [of 0 "''ico''"]] by auto
  obtain q where h1': "convertImage example_browser 0 ''pdf'' = Resolved q"
    by (simp add: convertImage_def example_browser_def Let_def)
  have h2: "loadImage example_browser 0 = Some example_image"
    by (simp add: example_loads)
  have nd: "''pdf'' \<noteq> ''ico''"
    by simp
  have d: "cwidth (raster p) = 32 \<and> cheight (raster p) = 32
      \<and> p = CanvasData (raster p) (JSString ''image/png'') None
      \<and> raster p = drawImage example_browser (fillRect (createCanvas 32 32) white 0 0 32 32)
            example_image 0 0 32 32"
    by (rule convertImage_dimensions [OF h1 h2, unfolded if_P [OF refl]])
  have d': "cwidth (raster q) = width example_image \<and> cheight (raster q) = height example_image"
    by (rule convertImage_dimensions [OF h1' h2, unfolded if_not_P [OF nd]])
  have a: "cwidth (raster p) = 32"
    by (rule d [THEN conjunct1])
  have b: "cheight (raster p) = 32"
    by (rule d [THEN conjunct2, THEN conjunct1])
  have pe: "p = CanvasData (raster p) (JSString ''image/png'') None"
    by (rule d [THEN conjunct2, THEN conjunct2, THEN conjunct1])
  have e: "encoding p = JSString ''image/png''"
    by (subst pe) simp
  have "cwidth (raster q) = 800" and "cheight (raster q) = 600"
    using d' by (simp_all add: example_image_def)
  with a b e show ?thesis
    by (simp add: h1 h1')
qed

text \<open>
  Claim C6. For every target format, every pixel of the raster that is encoded is the
  source pixel (as resampled to the raster's size) composited by source-over onto opaque
  white: it is fully opaque, and where the source is fully transparent it is white.
\<close>

theorem convertImage_white_background:
  assumes "convertImage br dataUrl format = Resolved p"
    and "loadImage br dataUrl = Some img"
    and "x < cwidth (raster p)" and "y < cheight (raster p)"
  shows "bitmap (raster p) x y
           = source_over (resample br img (cwidth (raster p)) (cheight (raster p)) x y) white
         \<and> alpha (bitmap (raster p) x y) = 255
         \<and> (alpha (resample br img (cwidth (raster p)) (cheight (raster p)) x y) = 0
              \<longrightarrow> bitmap (raster p) x y = white)"
proof -
  let ?w = "if format = ''ico'' then 32 else width img"
  let ?h = "if format = ''ico'' then 32 else height img"
  have r: "raster p = drawImage br (fillRect (createCanvas ?w ?h) white 0 0 ?w ?h) img 0 0 ?w ?h"
    using convertImage_raster [OF assms(1,2)] .
  have w: "cwidth (raster p) = ?w" and h: "cheight (raster p) = ?h"
    by (simp_all only: r flattened_size)
  have px: "bitmap (raster p) x y = source_over (resample br img ?w ?h x y) white"
    using assms(3,4) unfolding w h by (subst r) (rule flattened_pixel)
  have wa: "alpha white = 255" by (simp add: white_def)
  show ?thesis
    unfolding w h px
    by (simp add: source_over_opaque_alpha [OF wa] source_over_transparent [OF _ wa])
qed

theorem convertImage_white_background_witness:
  "map_option (\<lambda>p. bitmap (raster p) 0 0) (resolved (convertImage example_browser 0 ''png''))
     = Some white"
proof -
  obtain p where h1: "convertImage example_browser 0 ''png'' = Resolved p"
    using is_resolvedE [OF example_resolves [of 0 "''png''"]] by auto
  have h2: "loadImage example_browser 0 = Some example_image"
    by (simp add: example_loads)
  have h3: "0 < cwidth (raster p)" and h4: "0 < cheight (raster p)"
    by (simp_all add: example_raster_size [OF h1])
  have t: "alpha (resample example_browser example_image (cwidth (raster p))
      (cheight (raster p)) 0 0) = 0"
    by (simp add: example_browser_def example_image_def transparent_black_def)
  have "bitmap (raster p) 0 0 = white"
    using convertImage_white_background [OF h1 h2 h3 h4, THEN conjunct2, THEN conjunct2] t
    by (rule mp)
  then show ?thesis
    by (simp add: h1)
qed

section \<open>No check of the format\<close>

lemma formatToMime_outside:
  "format \<notin> set OutputFormat_values \<Longrightarrow>
   get_property formatToMime format =
     (if format = ''jpg'' then JSString ''image/jpeg''
      else if format \<in> set Object_prototype_properties then Inherited format
      else Undefined)"
  by (simp add: get_property_def formatToMime_def OutputFormat_values_def)

text \<open>
  Claim C2, as the code has it. \<open>convertImage\<close> does not check its format: the closed
  set is the static type \<open>OutputFormat\<close> only. For a format outside the eight, the image is
  decoded first (a failure there is the load error), drawn at its own size on the white fill,
  and handed to \<open>toDataURL\<close> without a quality and with the type \<open>formatToMime[format]\<close>:
  that is \<open>image/jpeg\<close> for \<open>jpg\<close>, the member of \<open>Object.prototype\<close> of that name
  for a format that names one, and undefined for any other. The only rejections are the four
  of every conversion.
\<close>

theorem convertImage_unvalidated:
  assumes "format \<notin> set OutputFormat_values"
  shows "(loadImage br dataUrl = None \<longrightarrow>
            convertImage br dataUrl format = Rejected CouldNotLoadImage)
       \<and> (\<forall>img. loadImage br dataUrl = Some img \<longrightarrow>
            convertImage br dataUrl format =
              (let w = width img; h = height img;
                   cv = drawImage br (fillRect (createCanvas w h) white 0 0 w h) img 0 0 w h;
                   mimeType = get_property formatToMime format
               in if \<not> getContext2d br w h then Rejected CouldNotGetContext
                  else (case toDataURL_throws br cv mimeType None of
                          None \<Rightarrow> Resolved (CanvasData cv mimeType None)
                        | Some SecurityError \<Rightarrow> Rejected (SecurityRestrictions format)
                        | Some OtherException \<Rightarrow> Rejected (MayNotSupport format))))
       \<and> get_property formatToMime format =
           (if format = ''jpg'' then JSString ''image/jpeg''
            else if format \<in> set Object_prototype_properties then Inherited format
            else Undefined)"
proof -
  from assms have n: "format \<noteq> ''ico''" "format \<noteq> ''pdf''" "format \<noteq> ''jpeg''"
    by (auto simp: OutputFormat_values_def)
  show ?thesis
    by (simp add: convertImage_def Let_def n formatToMime_outside [OF assms, symmetric])
qed

text \<open>
  Claim C2 as stated fails: \<open>heic\<close> is outside the closed set, and converting a decodable
  image to it resolves.
\<close>

theorem convertImage_unvalidated_counterexample:
  "''heic'' \<notin> set OutputFormat_values \<and> is_resolved (convertImage example_browser 0 ''heic'')"
  by (simp add: OutputFormat_values_def example_resolves)

theorem convertImage_unvalidated_witness:
  "''heic'' \<notin> set OutputFormat_values
   \<and> map_option encoding (resolved (convertImage example_browser 0 ''heic'')) = Some Undefined
   \<and> convertImage example_browser 2 ''heic'' = Rejected CouldNotLoadImage
   \<and> ''toString'' \<notin> set OutputFormat_values
   \<and> map_option encoding (resolved (convertImage example_browser 0 ''toString''))
       = Some (Inherited ''toString'')"
proof -
  have h: "''heic'' \<notin> set OutputFormat_values"
    and h': "''toString'' \<notin> set OutputFormat_values"
    by (simp_all add: OutputFormat_values_def)
  have l: "loadImage example_browser 0 = Some example_image"
    by (simp add: example_loads)
  have l2: "loadImage example_browser 2 = None"
    by (simp add: example_browser_def)
  note t = convertImage_unvalidated [OF h, of example_browser]
  note t' = convertImage_unvalidated [OF h', of example_browser]
  have a: "convertImage example_browser 2 ''heic'' = Rejected CouldNotLoadImage"
    using t [of 2, THEN conjunct1] l2 by (rule mp)
  have m: "get_property formatToMime ''heic'' = Undefined"
    using t [of 0, THEN conjunct2, THEN conjunct2]
    by (simp add: Object_prototype_properties_def)
  have m': "get_property formatToMime ''toString'' = Inherited ''toString''"
    using t' [of 0, THEN conjunct2, THEN conjunct2]
    by (simp add: Object_prototype_properties_def)
  have b: "map_option encoding (resolved (convertImage example_browser 0 ''heic'')) = Some Undefined"
    using t [of 0, THEN conjunct2, THEN conjunct1, THEN spec, of example_image] l
    by (simp add: Let_def example_browser_def m)
  have b': "map_option encoding (resolved (convertImage example_browser 0 ''toString''))
      = Some (Inherited ''toString'')"
    using t' [of 0, THEN conjunct2, THEN conjunct1, THEN spec, of example_image] l
    by (simp add: Let_def example_browser_def m')
  from h h' a b b' show ?thesis by simp
qed

section \<open>Adding files\<close>

lemma mount_cards_simps [simp]:
  "files (mount_cards fs s) = files s"
  "toasts (mount_cards fs s) = toasts s"
  "objectURLs (mount_cards fs s) = objectURLs s"
  "nextObjectURL (mount_cards fs s) = nextObjectURL s"
  "revoked (mount_cards fs s) = revoked s"
  "batchOutputFormat (mount_cards fs s) = batchOutputFormat s"
  "isBatchConverting (mount_cards fs s) = isBatchConverting s"
  by (induction fs arbitrary: s) simp_all

lemma new_items_file: "map file' (new_items fs n) = fs"
  by (induction fs arbitrary: n) simp_all

lemma new_items_id: "a \<in> set (new_items fs n) \<Longrightarrow> id' a = file_id (file' a)"
  by (induction fs arbitrary: n) auto

lemma new_items_filter:
  "map file' (filter (\<lambda>a. id' a \<notin> E) (new_items fs n)) = filter (\<lambda>f. file_id f \<notin> E) fs"
  by (induction fs arbitrary: n) simp_all

lemma new_items_Nil: "(new_items fs n = []) = (fs = [])"
  by (cases fs) simp_all

lemma ex_id: "file_id example_file = ''photo.png-1700000000000-2048''"
  by (simp add: file_id_def example_file_def toString_def decimal.simps digit_char_def)

lemma ex_type: "startsWith (type' example_file) ''image/''"
  "\<not> startsWith (type' example_pdf_file) ''image/''"
  by (simp_all add: startsWith_def example_file_def example_pdf_file_def)

text \<open>
  Claim C8. \<open>handleFiles\<close> keeps the entries whose type starts with \<open>image/\<close>. When
  none is left, the only change is one more toast, Invalid File Type: the item set and
  everything else stay as they were. Otherwise no toast is added, the items that were there
  stay in place at the front, and the items added behind them are the image entries whose id
  is not among the ids that were there, each under the id of its file.
\<close>

theorem handleFiles_images_only:
  "(filter (\<lambda>f. startsWith (type' f) ''image/'') incoming = [] \<longrightarrow>
      handleFiles (Some incoming) s = s\<lparr>toasts := toasts s @ [InvalidFileType]\<rparr>)
   \<and> (filter (\<lambda>f. startsWith (type' f) ''image/'') incoming \<noteq> [] \<longrightarrow>
      toasts (handleFiles (Some incoming) s) = toasts s
      \<and> take (length (files s)) (files (handleFiles (Some incoming) s)) = files s
      \<and> map file' (drop (length (files s)) (files (handleFiles (Some incoming) s)))
          = filter (\<lambda>f. file_id f \<notin> set (map id' (files s)))
              (filter (\<lambda>f. startsWith (type' f) ''image/'') incoming)
      \<and> (\<forall>a \<in> set (drop (length (files s)) (files (handleFiles (Some incoming) s))).
            id' a = file_id (file' a)))"
  by (auto simp: handleFiles_def Let_def new_items_Nil new_items_filter new_items_id)

theorem handleFiles_images_only_witness:
  "handleFiles (Some [example_pdf_file]) initial_client
     = initial_client\<lparr>toasts := [InvalidFileType]\<rparr>
   \<and> map file' (files (handleFiles (Some [example_pdf_file, example_file]) initial_client))
     = [example_file]"
proof -
  have a: "filter (\<lambda>f. startsWith (type' f) ''image/'') [example_pdf_file] = []"
    by (simp add: ex_type)
  have b: "filter (\<lambda>f. startsWith (type' f) ''image/'') [example_pdf_file, example_file]
             = [example_file]"
    by (simp add: ex_type)
  have b': "filter (\<lambda>f. startsWith (type' f) ''image/'') [example_pdf_file, example_file] \<noteq> []"
    unfolding b by simp
  have e: "files initial_client = []" "toasts initial_client = []"
    by (simp_all add: initial_client_def)
  have "handleFiles (Some [example_pdf_file]) initial_client
          = initial_client\<lparr>toasts := toasts initial_client @ [InvalidFileType]\<rparr>"
    using handleFiles_images_only [of "[example_pdf_file]" initial_client, THEN conjunct1] a
    by (rule mp)
  moreover have "map file' (drop (length (files initial_client))
        (files (handleFiles (Some [example_pdf_file, example_file]) initial_client)))
      = filter (\<lambda>f. file_id f \<notin> set (map id' (files initial_client)))
          (filter (\<lambda>f. startsWith (type' f) ''image/'') [example_pdf_file, example_file])"
    using handleFiles_images_only [of "[example_pdf_file, example_file]" initial_client,
        THEN conjunct2, THEN mp, OF b']
    by blast
  ultimately show ?thesis
    by (simp add: e ex_type)
qed

lemma handleFiles_files:
  "files (handleFiles (Some incoming) s) =
     files s @ filter (\<lambda>a. id' a \<notin> set (map id' (files s)))
       (new_items (filter (\<lambda>f. startsWith (type' f) ''image/'') incoming) (nextObjectURL s))"
  by (simp add: handleFiles_def Let_def new_items_Nil)

lemma new_items_ids: "map id' (new_items fs n) = map file_id fs"
  by (induction fs arbitrary: n) simp_all

lemma new_items_filter_ids:
  "map id' (filter (\<lambda>a. id' a \<notin> E) (new_items fs n)) = filter (\<lambda>i. i \<notin> E) (map file_id fs)"
  by (induction fs arbitrary: n) simp_all

lemma handleFiles_ids:
  "map id' (files (handleFiles (Some incoming) s)) =
     map id' (files s) @ filter (\<lambda>i. i \<notin> set (map id' (files s)))
       (map file_id (filter (\<lambda>f. startsWith (type' f) ''image/'') incoming))"
  by (simp only: handleFiles_files map_append new_items_filter_ids)

lemma handleFiles_known_ids:
  assumes "\<forall>f \<in> set incoming. startsWith (type' f) ''image/'' \<longrightarrow> file_id f \<in> set (map id' (files s))"
  shows "files (handleFiles (Some incoming) s) = files s"
proof -
  have "filter (\<lambda>i. i \<notin> set (map id' (files s)))
          (map file_id (filter (\<lambda>f. startsWith (type' f) ''image/'') incoming)) = []"
    using assms by (auto simp: filter_empty_conv)
  then have "map id' (files (handleFiles (Some incoming) s)) = map id' (files s)"
    by (simp only: handleFiles_ids append_Nil2)
  then have "length (files (handleFiles (Some incoming) s)) = length (files s)"
    by (metis length_map)
  then show ?thesis
    by (simp add: handleFiles_files)
qed

lemma handleFiles_distinct:
  assumes "distinct (map id' (files s))"
    and "distinct (map file_id (filter (\<lambda>f. startsWith (type' f) ''image/'') incoming))"
  shows "distinct (map id' (files (handleFiles (Some incoming) s)))"
  using assms by (auto simp only: handleFiles_ids distinct_append distinct_filter set_filter)

text \<open>
  Claim C3, at the input where it fails. One call of \<open>handleFiles\<close> on the empty set with
  a list that holds the same file twice (same name, time stamp and size, so the same id)
  leaves two items under that id: new files are filtered against the ids that are already
  in the set, not against each other.
\<close>

theorem handleFiles_duplicates_in_one_list:
  "map id' (files (handleFiles (Some [example_file, example_file]) initial_client))
     = [''photo.png-1700000000000-2048'', ''photo.png-1700000000000-2048'']"
  by (simp add: handleFiles_def Let_def initial_client_def startsWith_def ex_id
      example_file_def [THEN arg_cong, of type'])

section \<open>Removing files\<close>

text \<open>
  Claim C9, at the input where it fails. After the call above the set holds two items under
  one id, with the previews 0 and 1. \<open>removeFile\<close> with that id evicts both, but releases
  only the preview of the first, the one \<open>find\<close> answers: the object URL 1 stays live
  with no item left to release it.
\<close>

theorem removeFile_duplicate_id:
  "map preview (files (handleFiles (Some [example_file, example_file]) initial_client)) = [0, 1]
   \<and> files (removeFile (file_id example_file)
        (handleFiles (Some [example_file, example_file]) initial_client)) = []
   \<and> revoked (removeFile (file_id example_file)
        (handleFiles (Some [example_file, example_file]) initial_client)) = [0]
   \<and> objectURLs (removeFile (file_id example_file)
        (handleFiles (Some [example_file, example_file]) initial_client)) = [1]"
  by (simp add: removeFile_def revokeObjectURL_def handleFiles_def Let_def initial_client_def
      ex_type)

text \<open>
  An object URL is also left behind when a file that is already in the set is added again:
  \<open>handleFiles\<close> creates the preview of every image entry before it filters out the
  known ids, so the set stays as it was while one more object URL is live.
\<close>

lemma handleFiles_again_object_url:
  "files (handleFiles (Some [example_file]) (handleFiles (Some [example_file]) initial_client))
     = files (handleFiles (Some [example_file]) initial_client)
   \<and> map preview (files (handleFiles (Some [example_file]) initial_client)) = [0]
   \<and> objectURLs (handleFiles (Some [example_file])
        (handleFiles (Some [example_file]) initial_client)) = [0, 1]"
  by (simp add: handleFiles_def Let_def initial_client_def ex_type)

text \<open>
  While the ids in the set are distinct, \<open>removeFile\<close> and \<open>removeAll\<close> do release
  what they evict, each preview once.
\<close>

lemma fold_revoke_files: "files (fold (\<lambda>f. revokeObjectURL (preview f)) fs s) = files s"
  by (induction fs arbitrary: s) (simp_all add: revokeObjectURL_def)

lemma fold_revoke_revoked:
  "revoked (fold (\<lambda>f. revokeObjectURL (preview f)) fs s) = revoked s @ map preview fs"
  by (induction fs arbitrary: s) (simp_all add: revokeObjectURL_def)

lemma fold_revoke_objectURLs:
  "objectURLs (fold (\<lambda>f. revokeObjectURL (preview f)) fs s)
     = filter (\<lambda>u. u \<notin> set (map preview fs)) (objectURLs s)"
  by (induction fs arbitrary: s) (simp_all add: revokeObjectURL_def conj_commute)

lemma removeAll'_releases:
  "files (removeAll' s) = []
   \<and> revoked (removeAll' s) = revoked s @ map preview (files s)
   \<and> objectURLs (removeAll' s) = filter (\<lambda>u. u \<notin> set (map preview (files s))) (objectURLs s)"
  by (simp add: removeAll'_def fold_revoke_revoked fold_revoke_objectURLs)

lemma find_distinct_id:
  "distinct (map id' fs) \<Longrightarrow> f \<in> set fs \<Longrightarrow> find (\<lambda>g. id' g = id' f) fs = Some f"
  by (induction fs) (auto simp: rev_image_eqI)

lemma filter_distinct_id:
  "distinct (map id' fs) \<Longrightarrow> f \<in> set fs \<Longrightarrow>
   filter (\<lambda>g. id' g \<noteq> id' f) fs = filter (\<lambda>g. g \<noteq> f) fs"
  by (rule filter_cong) (auto simp: distinct_map dest: inj_onD)

lemma removeFile_present:
  assumes "distinct (map id' (files s))" and "f \<in> set (files s)"
  shows "files (removeFile (id' f) s) = filter (\<lambda>g. g \<noteq> f) (files s)
         \<and> revoked (removeFile (id' f) s) = revoked s @ [preview f]
         \<and> objectURLs (removeFile (id' f) s) = filter (\<lambda>u. u \<noteq> preview f) (objectURLs s)"
  by (simp add: removeFile_def Let_def find_distinct_id [OF assms] filter_distinct_id [OF assms]
      revokeObjectURL_def)

lemma removeFile_absent:
  assumes "i \<notin> set (map id' (files s))"
  shows "files (removeFile i s) = files s \<and> revoked (removeFile i s) = revoked s
         \<and> objectURLs (removeFile i s) = objectURLs s"
proof -
  have "find (\<lambda>f. id' f = i) (files s) = None"
    using assms by (auto simp: find_None_iff)
  moreover have "filter (\<lambda>f. id' f \<noteq> i) (files s) = files s"
    using assms by (auto simp: filter_id_conv)
  ultimately show ?thesis
    by (simp add: removeFile_def Let_def)
qed

section \<open>Registered cards\<close>

text \<open>
  From the empty list on, whatever is added or removed, every item of the list has a card
  registered under its id: \<open>handleConvertAll\<close> finds one for each file.
\<close>

lemma mount_cards_other:
  "k \<notin> id' ` set fs \<Longrightarrow> fileCardRefs (mount_cards fs s) k = fileCardRefs s k"
  by (induction fs arbitrary: s) auto

lemma mount_cards_refs:
  "k \<in> id' ` set fs \<Longrightarrow> \<exists>f \<in> set fs. fileCardRefs (mount_cards fs s) k = Some f \<and> id' f = k"
proof (induction fs arbitrary: s)
  case Nil
  then show ?case by simp
next
  case (Cons g fs)
  let ?s = "s\<lparr>cards := (cards s)(preview g := initial_card),
               fileCardRefs := (fileCardRefs s)(id' g \<mapsto> g)\<rparr>"
  show ?case
  proof (cases "k \<in> id' ` set fs")
    case True
    from Cons.IH [OF this, of ?s] show ?thesis by auto
  next
    case False
    with Cons.prems have k: "k = id' g" by auto
    from mount_cards_other [OF False, of ?s] k show ?thesis by simp
  qed
qed

lemma registered_initial: "registered initial_client"
  by (simp add: registered_def initial_client_def)

lemma registered_mount:
  assumes "registered s"
  shows "registered (mount_cards new (s\<lparr>files := files s @ new\<rparr>))"
proof -
  let ?s1 = "s\<lparr>files := files s @ new\<rparr>"
  have "\<exists>fd \<in> set (files s @ new).
      fileCardRefs (mount_cards new ?s1) (id' f) = Some fd \<and> id' fd = id' f"
    if f: "f \<in> set (files s @ new)" for f
  proof (cases "id' f \<in> id' ` set new")
    case True
    from mount_cards_refs [OF this, of ?s1] show ?thesis by auto
  next
    case False
    with f have "f \<in> set (files s)" by auto
    with assms obtain fd where "fd \<in> set (files s)" "fileCardRefs s (id' f) = Some fd"
      "id' fd = id' f"
      unfolding registered_def by blast
    with mount_cards_other [OF False, of ?s1] show ?thesis by auto
  qed
  then show ?thesis
    unfolding registered_def by simp
qed

lemma registered_frame:
  "registered s \<Longrightarrow> files t = files s \<Longrightarrow> fileCardRefs t = fileCardRefs s \<Longrightarrow> registered t"
  by (simp add: registered_def)

lemma registered_handleFiles:
  assumes "registered s"
  shows "registered (handleFiles incomingFiles s)"
proof (cases incomingFiles)
  case None
  with assms show ?thesis by (simp add: handleFiles_def)
next
  case (Some incoming)
  define images where "images = filter (\<lambda>f. startsWith (type' f) ''image/'') incoming"
  define new where
    "new = filter (\<lambda>f. id' f \<notin> set (map id' (files s))) (new_items images (nextObjectURL s))"
  define s1 where
    "s1 = s\<lparr>objectURLs := objectURLs s @ map preview (new_items images (nextObjectURL s)),
             nextObjectURL := nextObjectURL s + length images\<rparr>"
  have r1: "registered s1"
    by (rule registered_frame [OF assms]) (simp_all add: s1_def)
  show ?thesis
  proof (cases "images = []")
    case True
    have "registered (s1\<lparr>toasts := toasts s1 @ [InvalidFileType]\<rparr>)"
      by (rule registered_frame [OF r1]) simp_all
    with True Some show ?thesis
      by (simp add: handleFiles_def Let_def images_def [symmetric] s1_def)
  next
    case False
    have "handleFiles incomingFiles s = mount_cards new (s1\<lparr>files := files s1 @ new\<rparr>)"
      using Some False
      by (simp add: handleFiles_def Let_def new_items_Nil images_def [symmetric] new_def s1_def)
    with registered_mount [OF r1, of new] show ?thesis by simp
  qed
qed

lemma registered_removeFile:
  assumes "registered s"
  shows "registered (removeFile i s)"
proof -
  have f: "files (removeFile i s) = filter (\<lambda>f. id' f \<noteq> i) (files s)"
    and r: "fileCardRefs (removeFile i s) = (fileCardRefs s)(i := None)"
    by (simp_all add: removeFile_def Let_def revokeObjectURL_def split: option.splits)
  show ?thesis
    using assms unfolding registered_def f r by fastforce
qed

lemma registered_removeAll': "registered (removeAll' s)"
  by (simp add: registered_def removeAll'_def)

section \<open>The status of a card\<close>










section \<open>Converting all\<close>



lemma finalFormat_request:
  "finalFormat (Some fmt) (handleConvert_request (Some fmt) c) = finalFormat (Some fmt) c"
  by (simp add: finalFormat_def handleConvert_request_def Let_def)


lemma start_conversions_not_rejected:
  "start_conversions fmt refs fs cs = (cs', ps) \<Longrightarrow> p \<in> set ps \<Longrightarrow> \<not> is_rejected p"
  by (induction fs arbitrary: cs cs' ps) (auto split: option.splits prod.splits)

lemma start_conversions_finalFormat:
  "start_conversions fmt refs fs cs = (cs', ps) \<Longrightarrow>
   finalFormat (Some fmt) (cs' u) = finalFormat (Some fmt) (cs u)"
proof (induction fs arbitrary: cs cs' ps)
  case Nil
  then show ?case by simp
next
  case (Cons f fs)
  show ?case
  proof (cases "refs (id' f)")
    case None
    with Cons.prems obtain ps' where "start_conversions fmt refs fs cs = (cs', ps')"
      by (auto split: prod.splits)
    from Cons.IH [OF this] show ?thesis .
  next
    case (Some fd)
    let ?cs = "cs(preview fd := handleConvert_request (Some fmt) (cs (preview fd)))"
    from Some Cons.prems obtain ps' where "start_conversions fmt refs fs ?cs = (cs', ps')"
      by (auto split: prod.splits)
    from Cons.IH [OF this] show ?thesis
      by (simp add: finalFormat_request)
  qed
qed

































text \<open>
  With two items under one id, the card registered under the id is the one of the later
  item: \<open>handleConvertAll\<close> calls its \<open>handleConvert\<close> twice, both times for its own
  preview, and the card of the earlier item stays \<open>idle\<close>.
\<close>

lemma handleConvertAll_duplicate_ids:
  "conversionPromises
     (handleConvertAll (handleFiles (Some [example_file, example_file]) initial_client))
     = [Pending \<lparr>id' = file_id example_file, file' = example_file, preview = 1\<rparr> ''png'',
        Pending \<lparr>id' = file_id example_file, file' = example_file, preview = 1\<rparr> ''png'']
   \<and> card_statuses (client_state
        (handleConvertAll (handleFiles (Some [example_file, example_file]) initial_client)))
     = [idle, converting]"
  by (simp add: handleConvertAll_def handleFiles_def Let_def initial_client_def ex_type
      promise_all_def handleConvert_request_def finalFormat_def truthy_def initial_card_def
      card_statuses_def)

end
